theory Spec2Isabelle
  imports Main "HOL-Library.Word"
begin

section \<open>Data model of the chain subscriber\<close>

text \<open>
  The subscriber of \<^verbatim>\<open>chain/subscriber.go\<close> talks to three collaborators through
  interfaces: the chain manager, the chain store with its update transaction, and the
  wallet helpers. None of them is implemented in the repository, so the model records
  every call made on them in a trace, together with the error the call returned, and
  takes their answers from an environment that may depend on everything that happened
  before. Identifiers of 32 bytes are 256-bit words, \<^verbatim>\<open>uint64\<close> is a 64-bit word,
  instants and durations are nanosecond counts.
\<close>

type_synonym FileContractID = "256 word"
type_synonym BlockID = "256 word"
type_synonym PublicKey = "256 word"
type_synonym Address = "256 word"
type_synonym Time = int
type_synonym Duration = int

record ChainIndex =
  Height :: "64 word"
  ID :: BlockID

text \<open>\<^verbatim>\<open>types.ChainIndex{}\<close>, the zero value.\<close>

definition zeroChainIndex :: ChainIndex where
  "zeroChainIndex = \<lparr>Height = 0, ID = 0\<rparr>"

text \<open>
  Modelled from the spec: \<^verbatim>\<open>api.ContractState\<close> and its constants are declared in the
  \<^verbatim>\<open>api\<close> package, whose file is missing; the spec gives the five variants.
\<close>

datatype ContractState =
    ContractStateUnknown
  | ContractStatePending
  | ContractStateActive
  | ContractStateComplete
  | ContractStateFailed

text \<open>
  Modelled from the spec: \<^verbatim>\<open>types.MaxRevisionNumber\<close> is declared outside the
  repository; the spec calls it \<^verbatim>\<open>MAX_U64\<close>.
\<close>

definition MaxRevisionNumber :: "64 word" where
  "MaxRevisionNumber = - 1"

text \<open>The fields of the on-chain elements that the subscriber reads.\<close>

record FileContract =
  RevisionNumber :: "64 word"
  Filesize :: "64 word"

record FileContractElement =
  fce_ID :: "256 word"
  fce_FileContract :: FileContract

record V2FileContract =
  V2_RevisionNumber :: "64 word"
  V2_Filesize :: "64 word"

record V2FileContractElement =
  v2fce_ID :: "256 word"
  v2fce_V2FileContract :: V2FileContract

text \<open>
  \<^verbatim>\<open>types.V2FileContractResolutionType\<close> is an interface with four implementations;
  a nil interface value is \<open>None\<close>. The type switch of \<^verbatim>\<open>checkFileContract\<close> looks
  at the variant only.
\<close>

datatype V2FileContractResolutionType =
    V2FileContractFinalization
  | V2FileContractRenewal
  | V2StorageProof
  | V2FileContractExpiration

record HostAnnouncement =
  NetAddress :: string

text \<open>
  A block, with what \<^verbatim>\<open>b.ID()\<close> returns and the announcements that
  \<^verbatim>\<open>chain.ForEachHostAnnouncement\<close> yields, in order.
\<close>

record Block =
  Timestamp :: Time
  Block_ID :: BlockID
  HostAnnouncements :: "(PublicKey \<times> HostAnnouncement) list"

text \<open>
  An update carries \<^verbatim>\<open>State.Index\<close> and what its two iterators yield, in order:
  \<^verbatim>\<open>(fce, rev, resolved, valid)\<close> for v1 and \<^verbatim>\<open>(fce, rev, res)\<close> for v2 elements.
\<close>

record ApplyUpdate =
  au_State_Index :: ChainIndex
  au_Block :: Block
  au_FileContractElements ::
    "(FileContractElement \<times> FileContractElement option \<times> bool \<times> bool) list"
  au_V2FileContractElements ::
    "(V2FileContractElement \<times> V2FileContractElement option
      \<times> V2FileContractResolutionType option) list"

record RevertUpdate =
  ru_State_Index :: ChainIndex
  ru_FileContractElements ::
    "(FileContractElement \<times> FileContractElement option \<times> bool \<times> bool) list"
  ru_V2FileContractElements ::
    "(V2FileContractElement \<times> V2FileContractElement option
      \<times> V2FileContractResolutionType option) list"

record revision =
  revisionNumber :: "64 word"
  fileSize :: "64 word"

text \<open>
  Errors: \<^verbatim>\<open>errors.New(msg)\<close>, \<^verbatim>\<open>fmt.Errorf(format, err)\<close> with the format string
  as written, and \<^verbatim>\<open>fmt.Errorf(format, i, err)\<close> of \<^verbatim>\<open>sync\<close>.
\<close>

datatype error =
    New string
  | Errorf string error
  | ErrorfInt string int error

subsection \<open>Calls on the collaborators\<close>

datatype call =
    BeginChainUpdateTx
  | Commit
  | ContractState FileContractID
  | UpdateChainIndex ChainIndex
  | UpdateContract FileContractID "64 word" "64 word" "64 word"
  | UpdateContractState FileContractID ContractState
  | UpdateContractProofHeight FileContractID "64 word"
  | UpdateFailedContracts "64 word"
  | UpdateHost PublicKey HostAnnouncement "64 word" BlockID Time
  | WalletRevertChainUpdate Address RevertUpdate
  | WalletApplyChainUpdates Address "ApplyUpdate list"
  | TimeNow
  | Sleep Duration
  | Tip
  | UpdatesSince ChainIndex nat

text \<open>A trace entry is a call and the error it returned (\<open>None\<close> is \<^verbatim>\<open>nil\<close>).\<close>

type_synonym trace = "(call \<times> error option) list"

record Env =
  op_err :: "trace \<Rightarrow> call \<Rightarrow> error option"
  contract_state :: "trace \<Rightarrow> FileContractID \<Rightarrow> ContractState"
  time_now :: "trace \<Rightarrow> Time"
  cm_tip :: "trace \<Rightarrow> ChainIndex"
  cm_updates :: "trace \<Rightarrow> ChainIndex \<Rightarrow> nat \<Rightarrow> RevertUpdate list \<times> ApplyUpdate list"

text \<open>
  The fields of \<^verbatim>\<open>Subscriber\<close> that the sequential code reads. The map
  \<^verbatim>\<open>map[types.FileContractID]struct{}\<close> is a set. The logger, the channels and the
  mutex are left out: log lines and the debug prints are not modelled.
\<close>

record Subscriber =
  announcementMaxAge :: Duration
  retryTxIntervals :: "Duration list"
  walletAddress :: Address
  knownContracts :: "FileContractID set"

definition updatesBatchSize :: nat where
  "updatesBatchSize = 1000"

subsection \<open>Running calls, with Go's early return on error\<close>

type_synonym action = "trace \<Rightarrow> error option \<times> trace"

text \<open>A call on the transaction that returns only an error.\<close>

definition tx_op :: "Env \<Rightarrow> call \<Rightarrow> action" where
  "tx_op env c t = (let r = op_err env t c in (r, t @ [(c, r)]))"

text \<open>\<^verbatim>\<open>tx.ContractState(fcid)\<close> returns a state and an error.\<close>

definition tx_ContractState ::
  "Env \<Rightarrow> FileContractID \<Rightarrow> trace \<Rightarrow> (ContractState \<times> error option) \<times> trace" where
  "tx_ContractState env fcid t =
     (let r = op_err env t (ContractState fcid)
      in ((contract_state env t fcid, r), t @ [(ContractState fcid, r)]))"

text \<open>\<^verbatim>\<open>if err := f(); err != nil { return fmt.Errorf(msg, err) }\<close>\<close>

definition wrap :: "string \<Rightarrow> action \<Rightarrow> action" where
  "wrap msg f t = (case f t of (Some e, t') \<Rightarrow> (Some (Errorf msg e), t') | (None, t') \<Rightarrow> (None, t'))"

text \<open>Two statements in sequence: the second runs only if the first returned nil.\<close>

definition seq :: "action \<Rightarrow> action \<Rightarrow> action" where
  "seq f g t = (case f t of (Some e, t') \<Rightarrow> (Some e, t') | (None, t') \<Rightarrow> g t')"

text \<open>\<^verbatim>\<open>if b { ... }\<close> around statements.\<close>

definition when' :: "bool \<Rightarrow> action \<Rightarrow> action" where
  "when' b f t = (if b then f t else (None, t))"

text \<open>
  The iterators take a callback that shares the variable \<^verbatim>\<open>err\<close> with the caller and
  returns at once when it is set: every element is visited, the ones after an error do
  nothing.
\<close>

fun forEach :: "('a \<Rightarrow> action) \<Rightarrow> 'a list \<Rightarrow> error option \<Rightarrow> trace \<Rightarrow> error option \<times> trace" where
  "forEach f [] err t = (err, t)"
| "forEach f (x # xs) err t =
     (case err of
        Some e \<Rightarrow> forEach f xs err t
      | None \<Rightarrow> (case f x t of (err', t') \<Rightarrow> forEach f xs err' t'))"

text \<open>
  \<^verbatim>\<open>time.Since(ts)\<close>: the clock is read, and the difference saturates at the bounds of
  a \<^verbatim>\<open>Duration\<close> (an \<^verbatim>\<open>int64\<close>).
\<close>

definition time_Since :: "Env \<Rightarrow> Time \<Rightarrow> trace \<Rightarrow> Duration \<times> trace" where
  "time_Since env ts t =
     (max (- (2 ^ 63)) (min (2 ^ 63 - 1) (time_now env t - ts)), t @ [(TimeNow, None)])"

section \<open>The subscriber\<close>

definition isKnownContract :: "Subscriber \<Rightarrow> FileContractID \<Rightarrow> bool" where
  "isKnownContract s fcid = (fcid \<in> knownContracts s)"

definition checkFileContract ::
  "V2FileContractElement \<Rightarrow> V2FileContractResolutionType option \<Rightarrow> bool \<times> bool" where
  "checkFileContract fce res =
     (case res of
        None \<Rightarrow> (False, False)
      | Some V2FileContractFinalization \<Rightarrow> (True, True)
      | Some V2FileContractRenewal \<Rightarrow> (True, True)
      | Some V2StorageProof \<Rightarrow> (True, True)
      | Some V2FileContractExpiration \<Rightarrow> (True, V2_Filesize (v2fce_V2FileContract fce) = 0))"

text \<open>The revert branch of \<^verbatim>\<open>updateContract\<close> (\<^verbatim>\<open>prev != nil\<close>), after the state was read.\<close>

definition updateContract_revert ::
  "Env \<Rightarrow> ChainIndex \<Rightarrow> FileContractID \<Rightarrow> ContractState \<Rightarrow> revision \<Rightarrow> revision option
   \<Rightarrow> bool \<Rightarrow> action" where
  "updateContract_revert env index fcid state prev cur resolved =
     seq (when' (cur = None)
            (wrap ''failed to update contract state: %w''
               (tx_op env (UpdateContractState fcid ContractStatePending))))
    (seq (when' (cur \<noteq> None)
            (seq (wrap ''failed to revert contract: %w''
                    (tx_op env (UpdateContract fcid (Height index)
                                  (revisionNumber prev) (fileSize prev))))
                 (when' (state = ContractStateComplete)
                    (wrap ''failed to update contract state: %w''
                       (tx_op env (UpdateContractState fcid ContractStateActive))))))
         (when' resolved
            (wrap ''failed to update contract state: %w''
               (tx_op env (UpdateContractState fcid ContractStateActive)))))"

text \<open>The apply branch of \<^verbatim>\<open>updateContract\<close> (\<^verbatim>\<open>prev == nil\<close>, so \<^verbatim>\<open>curr != nil\<close>).\<close>

definition updateContract_apply ::
  "Env \<Rightarrow> ChainIndex \<Rightarrow> FileContractID \<Rightarrow> ContractState \<Rightarrow> revision \<Rightarrow> bool \<Rightarrow> bool
   \<Rightarrow> action" where
  "updateContract_apply env index fcid state cur resolved valid =
     seq (wrap ''failed to update contract: %w''
            (tx_op env (UpdateContract fcid (Height index)
                          (revisionNumber cur) (fileSize cur))))
    (seq (when' (state = ContractStatePending \<or> state = ContractStateUnknown)
            (wrap ''failed to update contract state: %w''
               (tx_op env (UpdateContractState fcid ContractStateActive))))
    (seq (when' (revisionNumber cur = MaxRevisionNumber \<and> fileSize cur = 0)
            (wrap ''failed to update contract state: %w''
               (tx_op env (UpdateContractState fcid ContractStateComplete))))
         (when' resolved
            (seq (wrap ''failed to update contract proof height: %w''
                    (tx_op env (UpdateContractProofHeight fcid (Height index))))
                 (if valid
                  then wrap ''failed to update contract state: %w''
                         (tx_op env (UpdateContractState fcid ContractStateComplete))
                  else wrap ''failed to update contract state: %w''
                         (tx_op env (UpdateContractState fcid ContractStateFailed)))))))"

text \<open>
  \<^verbatim>\<open>updateContract\<close>. Where the apply branch reads the fields of \<^verbatim>\<open>curr\<close>, the first
  check has excluded that both revisions are nil, so \<^verbatim>\<open>curr\<close> is present.
\<close>

definition updateContract ::
  "Subscriber \<Rightarrow> Env \<Rightarrow> ChainIndex \<Rightarrow> FileContractID \<Rightarrow> revision option \<Rightarrow> revision option
   \<Rightarrow> bool \<Rightarrow> bool \<Rightarrow> action" where
  "updateContract s env index fcid prev cur resolved valid t =
     (if prev = None \<and> cur = None
      then (Some (New ''both prev and curr revisions are nil''), t)
      else if \<not> isKnownContract s fcid then (None, t)
      else
        (case tx_ContractState env fcid t of
           ((state, Some e), t1) \<Rightarrow> (Some (Errorf ''failed to get contract state: %w'' e), t1)
         | ((state, None), t1) \<Rightarrow>
             (case prev of
                Some p \<Rightarrow> updateContract_revert env index fcid state p cur resolved t1
              | None \<Rightarrow>
                  updateContract_apply env index fcid state (the cur) resolved valid t1)))"

text \<open>The three callbacks of \<^verbatim>\<open>applyChainUpdates\<close>.\<close>

definition apply_host :: "Env \<Rightarrow> ApplyUpdate \<Rightarrow> PublicKey \<times> HostAnnouncement \<Rightarrow> action" where
  "apply_host env cau = (\<lambda>(hk, ha) t.
     if NetAddress ha = [] then (None, t)
     else tx_op env (UpdateHost hk ha (Height (au_State_Index cau)) (Block_ID (au_Block cau))
                       (Timestamp (au_Block cau))) t)"

definition apply_v1 ::
  "Subscriber \<Rightarrow> Env \<Rightarrow> ChainIndex
   \<Rightarrow> FileContractElement \<times> FileContractElement option \<times> bool \<times> bool \<Rightarrow> action" where
  "apply_v1 s env index = (\<lambda>(fce, rev, resolved, valid).
     let cur = (case rev of
                   None \<Rightarrow> \<lparr>revisionNumber = RevisionNumber (fce_FileContract fce),
                            fileSize = Filesize (fce_FileContract fce)\<rparr>
                 | Some r \<Rightarrow> \<lparr>revisionNumber = RevisionNumber (fce_FileContract r),
                              fileSize = Filesize (fce_FileContract r)\<rparr>)
     in updateContract s env index (fce_ID fce) None (Some cur) resolved valid)"

definition apply_v2 ::
  "Subscriber \<Rightarrow> Env \<Rightarrow> ChainIndex
   \<Rightarrow> V2FileContractElement \<times> V2FileContractElement option
      \<times> V2FileContractResolutionType option \<Rightarrow> action" where
  "apply_v2 s env index = (\<lambda>(fce, rev, res).
     let cur = (case rev of
                   None \<Rightarrow> \<lparr>revisionNumber = V2_RevisionNumber (v2fce_V2FileContract fce),
                            fileSize = V2_Filesize (v2fce_V2FileContract fce)\<rparr>
                 | Some r \<Rightarrow> \<lparr>revisionNumber = V2_RevisionNumber (v2fce_V2FileContract r),
                              fileSize = V2_Filesize (v2fce_V2FileContract r)\<rparr>);
         (resolved, valid) = checkFileContract fce res
     in updateContract s env index (v2fce_ID fce) None (Some cur) resolved valid)"

text \<open>
  \<^verbatim>\<open>applyChainUpdates\<close>: the loop over the batch. The \<^verbatim>\<open>continue\<close> of an old block
  leaves the whole body of the iteration.
\<close>

fun applyChainUpdates :: "Subscriber \<Rightarrow> Env \<Rightarrow> ApplyUpdate list \<Rightarrow> action" where
  "applyChainUpdates s env [] t = (None, t)"
| "applyChainUpdates s env (cau # caus) t =
     (case time_Since env (Timestamp (au_Block cau)) t of (age, t0) \<Rightarrow>
        if age > announcementMaxAge s then applyChainUpdates s env caus t0
        else
          seq (wrap ''failed to update host: %w''
                 (forEach (apply_host env cau) (HostAnnouncements (au_Block cau)) None))
         (seq (wrap ''failed to process v1 contracts: %w''
                 (forEach (apply_v1 s env (au_State_Index cau))
                    (au_FileContractElements cau) None))
         (seq (wrap ''failed to process v1 contracts: %w''
                 (forEach (apply_v2 s env (au_State_Index cau))
                    (au_V2FileContractElements cau) None))
              (applyChainUpdates s env caus))) t0)"

text \<open>The two callbacks of \<^verbatim>\<open>revertChainUpdate\<close>.\<close>

definition revert_v1 ::
  "Subscriber \<Rightarrow> Env \<Rightarrow> ChainIndex
   \<Rightarrow> FileContractElement \<times> FileContractElement option \<times> bool \<times> bool \<Rightarrow> action" where
  "revert_v1 s env index = (\<lambda>(fce, rev, resolved, valid).
     let cur = (case rev of
                   None \<Rightarrow> None
                 | Some r \<Rightarrow> Some \<lparr>revisionNumber = RevisionNumber (fce_FileContract r),
                                   fileSize = Filesize (fce_FileContract r)\<rparr>);
         prev = \<lparr>revisionNumber = RevisionNumber (fce_FileContract fce),
                 fileSize = Filesize (fce_FileContract fce)\<rparr>
     in updateContract s env index (fce_ID fce) (Some prev) cur resolved valid)"

definition revert_v2 ::
  "Subscriber \<Rightarrow> Env \<Rightarrow> ChainIndex
   \<Rightarrow> V2FileContractElement \<times> V2FileContractElement option
      \<times> V2FileContractResolutionType option \<Rightarrow> action" where
  "revert_v2 s env index = (\<lambda>(fce, rev, res).
     let prev = \<lparr>revisionNumber = V2_RevisionNumber (v2fce_V2FileContract fce),
                 fileSize = V2_Filesize (v2fce_V2FileContract fce)\<rparr>;
         cur = (case rev of
                   None \<Rightarrow> None
                 | Some r \<Rightarrow> Some \<lparr>revisionNumber = V2_RevisionNumber (v2fce_V2FileContract r),
                                   fileSize = V2_Filesize (v2fce_V2FileContract r)\<rparr>);
         (resolved, valid) = checkFileContract fce res
     in updateContract s env index (v2fce_ID fce) (Some prev) cur resolved valid)"

definition revertChainUpdate :: "Subscriber \<Rightarrow> Env \<Rightarrow> RevertUpdate \<Rightarrow> action" where
  "revertChainUpdate s env cru =
     seq (wrap ''failed to revert v1 contract: %w''
            (forEach (revert_v1 s env (ru_State_Index cru)) (ru_FileContractElements cru) None))
         (wrap ''failed to revert v2 contract: %w''
            (forEach (revert_v2 s env (ru_State_Index cru)) (ru_V2FileContractElements cru) None))"

text \<open>
  The revert loop of \<^verbatim>\<open>processUpdates\<close>; \<open>index\<close> is the named result, which an error
  return replaces by the zero index.
\<close>

fun revert_loop ::
  "Subscriber \<Rightarrow> Env \<Rightarrow> RevertUpdate list \<Rightarrow> ChainIndex \<Rightarrow> trace
   \<Rightarrow> (ChainIndex \<times> error option) \<times> trace" where
  "revert_loop s env [] index t = ((index, None), t)"
| "revert_loop s env (cru # crus) index t =
     (case wrap ''failed to revert chain update: %w'' (revertChainUpdate s env cru) t of
        (Some e, t1) \<Rightarrow> ((zeroChainIndex, Some e), t1)
      | (None, t1) \<Rightarrow>
          (case wrap ''failed to revert wallet update: %w''
                  (tx_op env (WalletRevertChainUpdate (walletAddress s) cru)) t1 of
             (Some e, t2) \<Rightarrow> ((zeroChainIndex, Some e), t2)
           | (None, t2) \<Rightarrow> revert_loop s env crus (ru_State_Index cru) t2))"

definition processUpdates ::
  "Subscriber \<Rightarrow> Env \<Rightarrow> RevertUpdate list \<Rightarrow> ApplyUpdate list \<Rightarrow> trace
   \<Rightarrow> (ChainIndex \<times> error option) \<times> trace" where
  "processUpdates s env crus caus t =
     (case revert_loop s env crus zeroChainIndex (t @ [(BeginChainUpdateTx, None)]) of
        ((index, Some e), t1) \<Rightarrow> ((index, Some e), t1)
      | ((index, None), t1) \<Rightarrow>
          (case seq (wrap ''failed to apply chain updates: %w'' (applyChainUpdates s env caus))
                    (wrap ''failed to apply wallet updates: %w''
                       (tx_op env (WalletApplyChainUpdates (walletAddress s) caus))) t1 of
             (Some e, t2) \<Rightarrow> ((zeroChainIndex, Some e), t2)
           | (None, t2) \<Rightarrow>
               (let index' = (if length caus > 0 then au_State_Index (last caus) else index)
                in case seq (wrap ''failed to update chain index: %w''
                               (tx_op env (UpdateChainIndex index')))
                       (seq (wrap ''failed to update failed contracts: %w''
                               (tx_op env (UpdateFailedContracts (Height index'))))
                            (wrap ''failed to commit chain update: %w''
                               (tx_op env Commit))) t2 of
                     (Some e, t3) \<Rightarrow> ((zeroChainIndex, Some e), t3)
                   | (None, t3) \<Rightarrow> ((index', None), t3))))"


section \<open>The sync driver\<close>

text \<open>\<^verbatim>\<open>cm.UpdatesSince(index, max)\<close> returns the two batches and an error.\<close>

definition cm_UpdatesSince ::
  "Env \<Rightarrow> ChainIndex \<Rightarrow> nat \<Rightarrow> trace
   \<Rightarrow> (RevertUpdate list \<times> ApplyUpdate list) \<times> error option \<times> trace" where
  "cm_UpdatesSince env index n t =
     (let r = op_err env t (UpdatesSince index n)
      in (cm_updates env t index n, r, t @ [(UpdatesSince index n, r)]))"

text \<open>\<^verbatim>\<open>cm.Tip()\<close>\<close>

definition cm_Tip :: "Env \<Rightarrow> trace \<Rightarrow> ChainIndex \<times> trace" where
  "cm_Tip env t = (cm_tip env t, t @ [(Tip, None)])"

text \<open>
  The retry loop inside \<^verbatim>\<open>sync\<close>, from the value \<open>i\<close> of its counter on
  (\<^verbatim>\<open>sync\<close> starts it at 1). The error of the result is the one that \<^verbatim>\<open>sync\<close>
  returns from inside the loop; it is \<open>None\<close> when the loop is left by \<^verbatim>\<open>break\<close> or
  by its condition. \<open>index\<close> is the variable that every attempt assigns.
\<close>

function sync_retry ::
  "Subscriber \<Rightarrow> Env \<Rightarrow> RevertUpdate list \<Rightarrow> ApplyUpdate list \<Rightarrow> nat \<Rightarrow> ChainIndex \<Rightarrow> trace
   \<Rightarrow> (ChainIndex \<times> error option) \<times> trace" where
  "sync_retry s env crus caus i index t =
     (if i \<le> length (retryTxIntervals s) + 1 then
        (case processUpdates s env crus caus t of
           ((index', None), t1) \<Rightarrow> ((index', None), t1)
         | ((index', Some err), t1) \<Rightarrow>
             if i - 1 = length (retryTxIntervals s)
             then ((index',
                    Some (ErrorfInt ''failed to process updates after %d attempts: %w''
                            (int i) err)), t1)
             else sync_retry s env crus caus (i + 1) index'
                    (t1 @ [(Sleep (retryTxIntervals s ! (i - 1)), None)]))
      else ((index, None), t))"
  by pat_completeness auto
termination
  by (relation "measure (\<lambda>(s, env, crus, caus, i, index, t). length (retryTxIntervals s) + 1 - i)")
     auto

declare sync_retry.simps [simp del]

text \<open>
  \<^verbatim>\<open>sync\<close>: the outer loop runs until the cursor is the tip of the chain manager,
  which need not happen; not returning is the value \<open>None\<close>.
\<close>

partial_function (option) sync ::
  "Subscriber \<Rightarrow> Env \<Rightarrow> ChainIndex \<Rightarrow> trace \<Rightarrow> (error option \<times> trace) option" where
  "sync s env index t =
     (case cm_Tip env t of (tip, t0) \<Rightarrow>
        if index \<noteq> tip then
          (case cm_UpdatesSince env index updatesBatchSize t0 of
             ((crus, caus), Some err, t1) \<Rightarrow>
               Some (Some (Errorf ''failed to fetch updates: %w'' err), t1)
           | ((crus, caus), None, t1) \<Rightarrow>
               (case sync_retry s env crus caus 1 index t1 of
                  ((index', Some err), t2) \<Rightarrow> Some (Some err, t2)
                | ((index', None), t2) \<Rightarrow> sync s env index' t2))
        else Some (None, t0))"

section \<open>Observations on traces\<close>

text \<open>
  The trace at which attempt \<open>k + 1\<close> of a batch starts when the retry loop is entered
  at trace \<open>t\<close> with \<open>m\<close> intervals used up and every attempt before has been followed
  by a sleep of the next interval.
\<close>

fun attempt_start ::
  "Subscriber \<Rightarrow> Env \<Rightarrow> RevertUpdate list \<Rightarrow> ApplyUpdate list \<Rightarrow> nat \<Rightarrow> trace \<Rightarrow> nat \<Rightarrow> trace" where
  "attempt_start s env crus caus m t 0 = t"
| "attempt_start s env crus caus m t (Suc k) =
     attempt_start s env crus caus (Suc m)
       (snd (processUpdates s env crus caus t) @ [(Sleep (retryTxIntervals s ! m), None)]) k"

text \<open>The number of transactions begun, that is, of attempts of \<^verbatim>\<open>processUpdates\<close>.\<close>

definition attempts :: "trace \<Rightarrow> nat" where
  "attempts t = length (filter (\<lambda>x. fst x = BeginChainUpdateTx) t)"

text \<open>The durations slept, in order.\<close>

fun sleeps :: "trace \<Rightarrow> Duration list" where
  "sleeps [] = []"
| "sleeps ((Sleep d, r) # t) = d # sleeps t"
| "sleeps (x # t) = sleeps t"

text \<open>Attempt \<open>k + 1\<close> of the batch returns an error.\<close>

definition attempt_failed ::
  "Subscriber \<Rightarrow> Env \<Rightarrow> RevertUpdate list \<Rightarrow> ApplyUpdate list \<Rightarrow> trace \<Rightarrow> nat \<Rightarrow> bool" where
  "attempt_failed s env crus caus t k \<longleftrightarrow>
     snd (fst (processUpdates s env crus caus (attempt_start s env crus caus 0 t k))) \<noteq> None"

text \<open>
  The calls that the walkers and the wallet helpers make; the rest are the calls of
  \<^verbatim>\<open>processUpdates\<close> and \<^verbatim>\<open>sync\<close> themselves.
\<close>

fun walk_call :: "call \<Rightarrow> bool" where
  "walk_call (ContractState _) = True"
| "walk_call (UpdateContract _ _ _ _) = True"
| "walk_call (UpdateContractState _ _) = True"
| "walk_call (UpdateContractProofHeight _ _) = True"
| "walk_call (UpdateHost _ _ _ _ _) = True"
| "walk_call (WalletRevertChainUpdate _ _) = True"
| "walk_call (WalletApplyChainUpdates _ _) = True"
| "walk_call TimeNow = True"
| "walk_call _ = False"

text \<open>
  A run from trace \<open>t\<close> with result \<open>r\<close> has only added entries, all of calls in \<open>P\<close>,
  and if it returned nil then every call it made returned nil.
\<close>

definition grows :: "(call \<Rightarrow> bool) \<Rightarrow> trace \<Rightarrow> error option \<times> trace \<Rightarrow> bool" where
  "grows P t r \<longleftrightarrow>
     (\<exists>new. snd r = t @ new \<and> (\<forall>x\<in>set new. P (fst x))
        \<and> (fst r = None \<longrightarrow> (\<forall>x\<in>set new. snd x = None)))"

definition action_ok :: "(call \<Rightarrow> bool) \<Rightarrow> action \<Rightarrow> bool" where
  "action_ok P f \<longleftrightarrow> (\<forall>t. grows P t (f t))"

fun is_UpdateChainIndex :: "call \<Rightarrow> bool" where
  "is_UpdateChainIndex (UpdateChainIndex _) = True"
| "is_UpdateChainIndex _ = False"

section \<open>Concrete inputs\<close>

text \<open>
  An environment in which no call fails, every contract is in state \<open>st\<close> and the clock
  stands at \<open>now\<close>; the chain manager has nothing to report.
\<close>

definition env_ok :: "ContractState \<Rightarrow> Time \<Rightarrow> Env" where
  "env_ok st now =
     \<lparr>op_err = (\<lambda>t c. None), contract_state = (\<lambda>t fcid. st), time_now = (\<lambda>t. now),
      cm_tip = (\<lambda>t. zeroChainIndex), cm_updates = (\<lambda>t index n. ([], []))\<rparr>"

text \<open>A subscriber that knows contract 1 only, with an hour of announcement age.\<close>

definition sub1 :: Subscriber where
  "sub1 = \<lparr>announcementMaxAge = 3600000000000, retryTxIntervals = [1000, 2000],
           walletAddress = 7, knownContracts = {1}\<rparr>"

definition index5 :: ChainIndex where
  "index5 = \<lparr>Height = 5, ID = 9\<rparr>"

text \<open>
  An apply update at height 5 whose block has timestamp \<open>ts\<close> and holds one v1 element
  of contract 1, unrevised and unresolved.
\<close>

definition cau1 :: "Time \<Rightarrow> ApplyUpdate" where
  "cau1 ts =
     \<lparr>au_State_Index = index5,
      au_Block = \<lparr>Timestamp = ts, Block_ID = 9, HostAnnouncements = []\<rparr>,
      au_FileContractElements =
        [(\<lparr>fce_ID = 1, fce_FileContract = \<lparr>RevisionNumber = 3, Filesize = 4\<rparr>\<rparr>,
          None, False, False)],
      au_V2FileContractElements = []\<rparr>"

text \<open>An environment in which exactly the calls in \<open>bad\<close> fail; it has nothing to report.\<close>

definition env_failing :: "(trace \<Rightarrow> call \<Rightarrow> bool) \<Rightarrow> Env" where
  "env_failing bad =
     \<lparr>op_err = (\<lambda>t c. if bad t c then Some (New ''database is locked'') else None),
      contract_state = (\<lambda>t fcid. ContractStateActive), time_now = (\<lambda>t. 0),
      cm_tip = (\<lambda>t. zeroChainIndex), cm_updates = (\<lambda>t index n. ([], []))\<rparr>"

text \<open>
  Two stores: in the first only the commit of the first transaction fails, in the second
  every commit fails. The last is the trace after the tip was read and a batch fetched.
\<close>

definition env_commit_fails_once :: Env where
  "env_commit_fails_once = env_failing (\<lambda>t c. c = Commit \<and> attempts t < 2)"

definition env_commit_fails :: Env where
  "env_commit_fails = env_failing (\<lambda>t c. c = Commit)"

definition trace_fetched :: trace where
  "trace_fetched = [(Tip, None), (UpdatesSince index5 updatesBatchSize, None)]"

section \<open>Properties\<close>

subsection \<open>What a run adds to the trace\<close>

lemma grows_refl: "grows P t (r, t)"
  by (simp add: grows_def)

lemma grows_trans:
  assumes "grows P t (None, t1)" and "grows P t1 r"
  shows "grows P t r"
proof -
  from assms(1) obtain n1 where n1: "t1 = t @ n1" "\<forall>x\<in>set n1. P (fst x)" "\<forall>x\<in>set n1. snd x = None"
    by (auto simp: grows_def)
  from assms(2) obtain n2 where n2: "snd r = t1 @ n2" "\<forall>x\<in>set n2. P (fst x)"
      "fst r = None \<longrightarrow> (\<forall>x\<in>set n2. snd x = None)"
    by (auto simp: grows_def)
  have "snd r = t @ (n1 @ n2) \<and> (\<forall>x\<in>set (n1 @ n2). P (fst x))
      \<and> (fst r = None \<longrightarrow> (\<forall>x\<in>set (n1 @ n2). snd x = None))"
    using n1 n2 by auto
  then show ?thesis unfolding grows_def by (rule exI)
qed

lemma grows_fail: "grows P t (x, t') \<Longrightarrow> grows P t (Some e, t')"
  by (auto simp: grows_def)

lemma action_ok_tx_op: "P c \<Longrightarrow> action_ok P (tx_op env c)"
  by (simp add: action_ok_def grows_def tx_op_def Let_def)

lemma action_ok_wrap: "action_ok P f \<Longrightarrow> action_ok P (wrap msg f)"
  unfolding action_ok_def
proof
  fix t assume a: "\<forall>t. grows P t (f t)"
  show "grows P t (wrap msg f t)"
  proof (cases "f t")
    case (Pair r t')
    with a[rule_format, of t] show ?thesis
      by (cases r) (auto simp: wrap_def intro: grows_fail)
  qed
qed

lemma action_ok_seq: "action_ok P f \<Longrightarrow> action_ok P g \<Longrightarrow> action_ok P (seq f g)"
  unfolding action_ok_def
proof
  fix t assume a: "\<forall>t. grows P t (f t)" and b: "\<forall>t. grows P t (g t)"
  show "grows P t (seq f g t)"
  proof (cases "f t")
    case (Pair r t')
    show ?thesis
    proof (cases r)
      case None
      with Pair a[rule_format, of t] b[rule_format, of t'] show ?thesis
        by (auto simp: seq_def intro: grows_trans)
    next
      case (Some e)
      with Pair a[rule_format, of t] show ?thesis by (simp add: seq_def)
    qed
  qed
qed

lemma action_ok_when: "action_ok P f \<Longrightarrow> action_ok P (when' b f)"
  by (simp add: action_ok_def when'_def grows_refl)

lemma action_ok_if: "action_ok P f \<Longrightarrow> action_ok P g \<Longrightarrow> action_ok P (if b then f else g)"
  by simp

lemma forEach_Some: "forEach f xs (Some e) t = (Some e, t)"
  by (induction xs) auto

lemma grows_forEach:
  assumes "\<And>x. action_ok P (f x)"
  shows "grows P t (forEach f xs None t)"
proof (induction xs arbitrary: t)
  case Nil
  show ?case by (simp add: grows_refl)
next
  case (Cons x xs)
  show ?case
  proof (cases "f x t")
    case (Pair r t')
    have "grows P t (f x t)" using assms[of x] unfolding action_ok_def by blast
    with Pair have g: "grows P t (r, t')" by simp
    show ?thesis
    proof (cases r)
      case None
      with Pair g Cons.IH[of t'] show ?thesis by (auto intro: grows_trans)
    next
      case (Some e)
      with Pair g show ?thesis by (simp add: forEach_Some)
    qed
  qed
qed

lemma action_ok_forEach: "(\<And>x. action_ok P (f x)) \<Longrightarrow> action_ok P (\<lambda>t. forEach f xs None t)"
  by (simp add: action_ok_def grows_forEach)

lemmas action_ok_intros = action_ok_tx_op action_ok_wrap action_ok_seq action_ok_when action_ok_if

lemma action_ok_updateContract:
  "action_ok walk_call (updateContract s env index fcid prev cur resolved valid)"
  unfolding action_ok_def
proof
  fix t
  have rv: "\<And>st p. action_ok walk_call (updateContract_revert env index fcid st p cur resolved)"
    unfolding updateContract_revert_def by (intro action_ok_intros) simp_all
  have ap: "\<And>st c. action_ok walk_call (updateContract_apply env index fcid st c resolved valid)"
    unfolding updateContract_apply_def by (intro action_ok_intros) simp_all
  have cs: "grows walk_call t (snd (fst (tx_ContractState env fcid t)), snd (tx_ContractState env fcid t))"
    by (simp add: tx_ContractState_def Let_def grows_def)
  show "grows walk_call t (updateContract s env index fcid prev cur resolved valid t)"
  proof (cases "(prev = None \<and> cur = None) \<or> \<not> isKnownContract s fcid")
    case True
    then show ?thesis by (auto simp: updateContract_def grows_refl)
  next
    case False
    obtain st r t1 where e: "tx_ContractState env fcid t = ((st, r), t1)"
      by (metis prod.exhaust)
    show ?thesis
    proof (cases r)
      case (Some e')
      with False e cs show ?thesis by (auto simp: updateContract_def intro: grows_fail)
    next
      case None
      with e cs have g1: "grows walk_call t (None, t1)" by simp
      show ?thesis
      proof (cases prev)
        case (Some p)
        have "grows walk_call t1 (updateContract_revert env index fcid st p cur resolved t1)"
          using rv by (simp add: action_ok_def)
        with g1 have "grows walk_call t (updateContract_revert env index fcid st p cur resolved t1)"
          by (rule grows_trans)
        with False e None Some show ?thesis by (simp add: updateContract_def)
      next
        case N2: None
        have "grows walk_call t1 (updateContract_apply env index fcid st (the cur) resolved valid t1)"
          using ap by (simp add: action_ok_def)
        with g1 have "grows walk_call t (updateContract_apply env index fcid st (the cur) resolved valid t1)"
          by (rule grows_trans)
        with False e None N2 show ?thesis by (auto simp: updateContract_def)
      qed
    qed
  qed
qed

lemma action_ok_revertChainUpdate: "action_ok walk_call (revertChainUpdate s env cru)"
  unfolding revertChainUpdate_def
  by (intro action_ok_intros action_ok_forEach)
     (auto simp: revert_v1_def revert_v2_def Let_def action_ok_updateContract split: prod.splits)

lemma action_ok_apply_host: "action_ok walk_call (apply_host env cau x)"
  by (cases x) (auto simp: apply_host_def action_ok_def grows_refl tx_op_def grows_def Let_def)

lemma action_ok_applyChainUpdates: "action_ok walk_call (applyChainUpdates s env caus)"
proof (induction caus)
  case Nil
  show ?case by (simp add: action_ok_def grows_refl)
next
  case (Cons cau caus)
  let ?body = "seq (wrap ''failed to update host: %w''
                 (forEach (apply_host env cau) (HostAnnouncements (au_Block cau)) None))
         (seq (wrap ''failed to process v1 contracts: %w''
                 (forEach (apply_v1 s env (au_State_Index cau))
                    (au_FileContractElements cau) None))
         (seq (wrap ''failed to process v1 contracts: %w''
                 (forEach (apply_v2 s env (au_State_Index cau))
                    (au_V2FileContractElements cau) None))
              (applyChainUpdates s env caus)))"
  have b: "action_ok walk_call ?body"
    by (intro action_ok_intros action_ok_forEach action_ok_apply_host Cons.IH)
       (auto simp: apply_v1_def apply_v2_def Let_def action_ok_updateContract split: prod.splits)
  show ?case unfolding action_ok_def
  proof
    fix t :: trace
    let ?t0 = "t @ [(TimeNow, None)]"
    have g0: "grows walk_call t (None, ?t0)" by (simp add: grows_def)
    have "grows walk_call ?t0 (applyChainUpdates s env caus ?t0)"
      using Cons.IH by (simp add: action_ok_def)
    with g0 have 1: "grows walk_call t (applyChainUpdates s env caus ?t0)" by (rule grows_trans)
    have "grows walk_call ?t0 (?body ?t0)" using b by (simp add: action_ok_def)
    with g0 have 2: "grows walk_call t (?body ?t0)" by (rule grows_trans)
    from 1 2 show "grows walk_call t (applyChainUpdates s env (cau # caus) t)"
      by (simp add: time_Since_def)
  qed
qed

lemma revert_loop_grows:
  "grows walk_call t (snd (fst (revert_loop s env crus index t)), snd (revert_loop s env crus index t))"
proof (induction crus arbitrary: index t)
  case Nil
  show ?case by (simp add: grows_refl)
next
  case (Cons cru crus)
  let ?A = "wrap ''failed to revert chain update: %w'' (revertChainUpdate s env cru)"
  let ?B = "wrap ''failed to revert wallet update: %w''
                  (tx_op env (WalletRevertChainUpdate (walletAddress s) cru))"
  have a: "action_ok walk_call ?A" by (intro action_ok_intros action_ok_revertChainUpdate)
  have b: "action_ok walk_call ?B" by (intro action_ok_intros) simp
  obtain r1 t1 where e1: "?A t = (r1, t1)" by (metis prod.exhaust)
  have g1: "grows walk_call t (r1, t1)" using a e1 unfolding action_ok_def by metis
  show ?case
  proof (cases r1)
    case (Some e)
    with e1 g1 show ?thesis by simp
  next
    case None
    obtain r2 t2 where e2: "?B t1 = (r2, t2)" by (metis prod.exhaust)
    have g2: "grows walk_call t1 (r2, t2)" using b e2 unfolding action_ok_def by metis
    from g1 None g2 have g12: "grows walk_call t (r2, t2)" by (auto intro: grows_trans)
    show ?thesis
    proof (cases r2)
      case (Some e)
      with e1 None e2 g12 show ?thesis by simp
    next
      case N2: None
      from g12 N2 Cons.IH[where index = "ru_State_Index cru" and t = t2]
      have "grows walk_call t (snd (fst (revert_loop s env crus (ru_State_Index cru) t2)),
               snd (revert_loop s env crus (ru_State_Index cru) t2))"
        by (auto intro: grows_trans)
      with e1 None e2 N2 show ?thesis by simp
    qed
  qed
qed

lemma revert_loop_index:
  "fst (fst (revert_loop s env crus index t)) =
     (if snd (fst (revert_loop s env crus index t)) = None
      then (if crus = [] then index else ru_State_Index (last crus))
      else zeroChainIndex)"
  by (induction crus arbitrary: index t) (auto split: prod.splits option.splits)

lemma walk_not_idx: "walk_call c \<Longrightarrow> \<not> is_UpdateChainIndex c \<and> c \<noteq> Commit \<and> c \<noteq> BeginChainUpdateTx"
  by (cases c) auto

lemma tail_cases:
  assumes "seq (wrap m1 (tx_op env (UpdateChainIndex i)))
             (seq (wrap m2 (tx_op env (UpdateFailedContracts h)))
                  (wrap m3 (tx_op env Commit))) t2 = (r, t3)"
  shows "(r = None \<and> t3 = t2 @ [(UpdateChainIndex i, None), (UpdateFailedContracts h, None), (Commit, None)])
       \<or> (r \<noteq> None \<and> (\<exists>e. t3 = t2 @ [(UpdateChainIndex i, Some e)]
              \<or> t3 = t2 @ [(UpdateChainIndex i, None), (UpdateFailedContracts h, Some e)]
              \<or> t3 = t2 @ [(UpdateChainIndex i, None), (UpdateFailedContracts h, None), (Commit, Some e)]))"
  using assms
  by (auto simp: seq_def wrap_def tx_op_def Let_def split: option.splits)

lemma processUpdates_shape:
  assumes "processUpdates s env crus caus t = ((idx, err), t')"
  shows "\<exists>pre. (\<forall>x\<in>set pre. walk_call (fst x)) \<and>
     ((err \<noteq> None \<and> idx = zeroChainIndex \<and> t' = t @ (BeginChainUpdateTx, None) # pre)
      \<or> ((\<forall>x\<in>set pre. snd x = None) \<and>
          (let i = (if caus \<noteq> [] then au_State_Index (last caus)
                    else if crus \<noteq> [] then ru_State_Index (last crus) else zeroChainIndex)
           in (err = None \<and> idx = i \<and>
                 t' = t @ (BeginChainUpdateTx, None) # pre
                        @ [(UpdateChainIndex i, None), (UpdateFailedContracts (Height i), None), (Commit, None)])
            \<or> (err \<noteq> None \<and> idx = zeroChainIndex \<and>
                (\<exists>e. t' = t @ (BeginChainUpdateTx, None) # pre @ [(UpdateChainIndex i, Some e)]
                   \<or> t' = t @ (BeginChainUpdateTx, None) # pre
                        @ [(UpdateChainIndex i, None), (UpdateFailedContracts (Height i), Some e)]
                   \<or> t' = t @ (BeginChainUpdateTx, None) # pre
                        @ [(UpdateChainIndex i, None), (UpdateFailedContracts (Height i), None),
                           (Commit, Some e)])))))"
proof -
  let ?t0 = "t @ [(BeginChainUpdateTx, None)]"
  let ?A = "seq (wrap ''failed to apply chain updates: %w'' (applyChainUpdates s env caus))
                    (wrap ''failed to apply wallet updates: %w''
                       (tx_op env (WalletApplyChainUpdates (walletAddress s) caus)))"
  obtain i1 r1 t1 where e1: "revert_loop s env crus zeroChainIndex ?t0 = ((i1, r1), t1)"
    by (metis prod.exhaust)
  have g1: "grows walk_call ?t0 (r1, t1)"
    using revert_loop_grows[of ?t0 s env crus zeroChainIndex] e1 by simp
  have ix1: "i1 = (if r1 = None then (if crus = [] then zeroChainIndex else ru_State_Index (last crus))
                   else zeroChainIndex)"
    using revert_loop_index[of s env crus zeroChainIndex ?t0] e1 by simp
  show ?thesis
  proof (cases r1)
    case (Some e)
    from g1 obtain pre where p: "t1 = ?t0 @ pre" "\<forall>x\<in>set pre. walk_call (fst x)"
      by (auto simp: grows_def)
    from assms e1 Some ix1 have "err \<noteq> None \<and> idx = zeroChainIndex \<and> t' = t1"
      by (auto simp: processUpdates_def)
    with p show ?thesis by auto
  next
    case None
    obtain r2 t2 where e2: "?A t1 = (r2, t2)" by (metis prod.exhaust)
    have "action_ok walk_call ?A"
      by (intro action_ok_intros action_ok_applyChainUpdates) simp
    then have "grows walk_call t1 (r2, t2)" using e2 unfolding action_ok_def by metis
    with g1 None have g2: "grows walk_call ?t0 (r2, t2)" by (auto intro: grows_trans)
    then obtain pre where p: "t2 = ?t0 @ pre" "\<forall>x\<in>set pre. walk_call (fst x)"
        "r2 = None \<longrightarrow> (\<forall>x\<in>set pre. snd x = None)"
      by (auto simp: grows_def)
    show ?thesis
    proof (cases r2)
      case (Some e)
      from assms e1 None e2 Some have "err \<noteq> None \<and> idx = zeroChainIndex \<and> t' = t2"
        by (auto simp: processUpdates_def)
      with p show ?thesis by auto
    next
      case N2: None
      let ?i = "if caus \<noteq> [] then au_State_Index (last caus)
                    else if crus \<noteq> [] then ru_State_Index (last crus) else zeroChainIndex"
      let ?C = "seq (wrap ''failed to update chain index: %w''
                               (tx_op env (UpdateChainIndex ?i)))
                       (seq (wrap ''failed to update failed contracts: %w''
                               (tx_op env (UpdateFailedContracts (Height ?i))))
                            (wrap ''failed to commit chain update: %w''
                               (tx_op env Commit)))"
      obtain r3 t3 where e3: "?C t2 = (r3, t3)" by (metis prod.exhaust)
      have i': "(if length caus > 0 then au_State_Index (last caus) else i1) = ?i"
        using ix1 None by simp
      have pu: "processUpdates s env crus caus t =
          (case ?C t2 of (Some e, t3) \<Rightarrow> ((zeroChainIndex, Some e), t3)
                       | (None, t3) \<Rightarrow> ((?i, None), t3))"
        by (simp only: processUpdates_def e1 None e2 N2 Let_def prod.case option.case i')
      have res: "err = r3 \<and> t' = t3 \<and> idx = (if r3 = None then ?i else zeroChainIndex)"
        using assms unfolding pu e3 by (cases r3) auto
      from tail_cases[OF e3] res p N2 show ?thesis
        unfolding Let_def
        by (intro exI[of _ pre]) auto
    qed
  qed
qed

lemma sleeps_append: "sleeps (a @ b) = sleeps a @ sleeps b"
  by (induction a rule: sleeps.induct) auto

lemma attempts_append: "attempts (a @ b) = attempts a + attempts b"
  by (simp add: attempts_def)

lemma walk_no_sleep: "\<forall>x\<in>set pre. walk_call (fst x) \<Longrightarrow> sleeps pre = [] \<and> attempts pre = 0"
proof (induction pre)
  case Nil
  show ?case by (simp add: attempts_def)
next
  case (Cons x pre)
  obtain c r where x: "x = (c, r)" by (cases x)
  with Cons show ?case by (cases c) (auto simp: attempts_def)
qed

lemma processUpdates_new:
  "\<exists>new. snd (processUpdates s env crus caus t) = t @ new \<and> attempts new = 1 \<and> sleeps new = []"
proof -
  obtain idx err t' where e: "processUpdates s env crus caus t = ((idx, err), t')"
    by (metis prod.exhaust)
  from processUpdates_shape[OF e] obtain pre where
    w: "\<forall>x\<in>set pre. walk_call (fst x)" and
    sh: "(\<exists>tl. t' = t @ (BeginChainUpdateTx, None) # pre @ tl \<and> attempts tl = 0 \<and> sleeps tl = [])"
    unfolding Let_def
    by (elim exE conjE disjE) (force simp: attempts_def)+
  from sh obtain tl where tl: "t' = t @ (BeginChainUpdateTx, None) # pre @ tl" "attempts tl = 0" "sleeps tl = []"
    by blast
  have "attempts ((BeginChainUpdateTx, None) # pre @ tl) = 1 \<and> sleeps ((BeginChainUpdateTx, None) # pre @ tl) = []"
    using walk_no_sleep[OF w] tl by (simp add: attempts_def sleeps_append)
  with tl e show ?thesis by (intro exI[of _ "(BeginChainUpdateTx, None) # pre @ tl"]) simp
qed

lemma sync_retry_run:
  assumes "m + k \<le> length (retryTxIntervals s)"
    and "\<forall>j<k. snd (fst (processUpdates s env crus caus (attempt_start s env crus caus m t j))) \<noteq> None"
  shows "sync_retry s env crus caus (Suc m) index t =
     (case processUpdates s env crus caus (attempt_start s env crus caus m t k) of
        ((index', None), t1) \<Rightarrow> ((index', None), t1)
      | ((index', Some err), t1) \<Rightarrow>
          if m + k = length (retryTxIntervals s)
          then ((index', Some (ErrorfInt ''failed to process updates after %d attempts: %w''
                                 (int (Suc (m + k))) err)), t1)
          else sync_retry s env crus caus (Suc (Suc (m + k))) index'
                 (t1 @ [(Sleep (retryTxIntervals s ! (m + k)), None)]))"
  using assms
proof (induction k arbitrary: m t index)
  case 0
  then show ?case
    by (subst sync_retry.simps) (auto split: prod.splits option.splits)
next
  case (Suc k)
  obtain i1 e1 t1 where pu: "processUpdates s env crus caus t = ((i1, Some e1), t1)"
    using Suc.prems(2)[rule_format, of 0] by (cases "processUpdates s env crus caus t") auto
  let ?t = "t1 @ [(Sleep (retryTxIntervals s ! m), None)]"
  have step: "sync_retry s env crus caus (Suc m) index t = sync_retry s env crus caus (Suc (Suc m)) i1 ?t"
    using Suc.prems(1) pu by (subst sync_retry.simps) auto
  have as: "\<And>j. attempt_start s env crus caus m t (Suc j) = attempt_start s env crus caus (Suc m) ?t j"
    using pu by simp
  have f: "\<forall>j<k. snd (fst (processUpdates s env crus caus (attempt_start s env crus caus (Suc m) ?t j))) \<noteq> None"
  proof (intro allI impI)
    fix j assume "j < k"
    then have "Suc j < Suc k" by simp
    from Suc.prems(2)[rule_format, OF this] show
      "snd (fst (processUpdates s env crus caus (attempt_start s env crus caus (Suc m) ?t j))) \<noteq> None"
      unfolding as .
  qed
  have le: "Suc m + k \<le> length (retryTxIntervals s)" using Suc.prems(1) by simp
  from Suc.IH[OF le f, of i1] show ?case
    unfolding step as add_Suc_shift .
qed

lemma attempt_start_shape:
  "m + k \<le> length (retryTxIntervals s) \<Longrightarrow>
   \<exists>new. attempt_start s env crus caus m t k = t @ new \<and> attempts new = k
      \<and> sleeps new = take k (drop m (retryTxIntervals s))"
proof (induction k arbitrary: m t)
  case 0
  show ?case by (simp add: attempts_def)
next
  case (Suc k)
  obtain n1 where n1: "snd (processUpdates s env crus caus t) = t @ n1" "attempts n1 = 1" "sleeps n1 = []"
    using processUpdates_new by blast
  let ?t = "snd (processUpdates s env crus caus t) @ [(Sleep (retryTxIntervals s ! m), None)]"
  have le: "Suc m + k \<le> length (retryTxIntervals s)" using Suc.prems by simp
  from Suc.IH[OF le, of ?t] obtain n2 where
    n2: "attempt_start s env crus caus (Suc m) ?t k = ?t @ n2" "attempts n2 = k"
        "sleeps n2 = take k (drop (Suc m) (retryTxIntervals s))"
    by blast
  have m: "m < length (retryTxIntervals s)" using Suc.prems by simp
  let ?new = "n1 @ [(Sleep (retryTxIntervals s ! m), None)] @ n2"
  have "attempt_start s env crus caus m t (Suc k) = t @ ?new" using n1 n2 by simp
  moreover have "attempts ?new = Suc k" using n1 n2 by (simp add: attempts_def)
  moreover have "sleeps ?new = take (Suc k) (drop m (retryTxIntervals s))"
    using n1 n2 m by (simp add: sleeps_append Cons_nth_drop_Suc[symmetric])
  ultimately show ?case by blast
qed

lemma attempt_result_shape:
  assumes "k \<le> length (retryTxIntervals s)"
  shows "\<exists>new. snd (processUpdates s env crus caus (attempt_start s env crus caus 0 t k)) = t @ new
     \<and> attempts new = Suc k \<and> sleeps new = take k (retryTxIntervals s)"
proof -
  from attempt_start_shape[of 0 k s env crus caus t] assms obtain n1 where
    n1: "attempt_start s env crus caus 0 t k = t @ n1" "attempts n1 = k"
        "sleeps n1 = take k (retryTxIntervals s)"
    by auto
  obtain n2 where n2: "snd (processUpdates s env crus caus (t @ n1)) = (t @ n1) @ n2"
      "attempts n2 = 1" "sleeps n2 = []"
    using processUpdates_new by blast
  have "snd (processUpdates s env crus caus (attempt_start s env crus caus 0 t k)) = t @ (n1 @ n2)
     \<and> attempts (n1 @ n2) = Suc k \<and> sleeps (n1 @ n2) = take k (retryTxIntervals s)"
    using n1 n2 by (simp add: attempts_def sleeps_append)
  then show ?thesis by (rule exI)
qed

lemma sync_retry_success:
  assumes "k \<le> length (retryTxIntervals s)"
    and "\<forall>j<k. attempt_failed s env crus caus t j" and "\<not> attempt_failed s env crus caus t k"
  shows "sync_retry s env crus caus 1 index t
           = processUpdates s env crus caus (attempt_start s env crus caus 0 t k)"
proof -
  from assms(2) have f: "\<forall>j<k. snd (fst (processUpdates s env crus caus (attempt_start s env crus caus 0 t j))) \<noteq> None"
    by (simp add: attempt_failed_def)
  from assms(1) have le: "0 + k \<le> length (retryTxIntervals s)" by simp
  from sync_retry_run[OF le f, of index] assms(3) show ?thesis
    by (auto simp: attempt_failed_def split: prod.splits option.splits)
qed

lemma sync_retry_exhausted:
  assumes "\<forall>j \<le> length (retryTxIntervals s). attempt_failed s env crus caus t j"
  shows "sync_retry s env crus caus 1 index t =
      ((fst (fst (processUpdates s env crus caus
                (attempt_start s env crus caus 0 t (length (retryTxIntervals s))))),
        Some (ErrorfInt ''failed to process updates after %d attempts: %w''
                (int (length (retryTxIntervals s)) + 1)
                (the (snd (fst (processUpdates s env crus caus
                   (attempt_start s env crus caus 0 t (length (retryTxIntervals s))))))))),
       snd (processUpdates s env crus caus
              (attempt_start s env crus caus 0 t (length (retryTxIntervals s)))))"
proof -
  let ?n = "length (retryTxIntervals s)"
  from assms have f: "\<forall>j<?n. snd (fst (processUpdates s env crus caus (attempt_start s env crus caus 0 t j))) \<noteq> None"
    by (simp add: attempt_failed_def)
  have le: "0 + ?n \<le> ?n" by simp
  from assms have "attempt_failed s env crus caus t ?n" by simp
  with sync_retry_run[OF le f, of index] show ?thesis
    by (auto simp: attempt_failed_def split: prod.splits option.splits)
qed

lemma filter_walk: "\<forall>x\<in>set pre. walk_call (fst x) \<Longrightarrow> filter is_UpdateChainIndex (map fst pre) = []"
  by (induction pre) (auto dest: walk_not_idx)

lemma sync_step_fail:
  assumes "index \<noteq> cm_tip env t0"
    and "cm_UpdatesSince env index updatesBatchSize (t0 @ [(Tip, None)]) = ((crus, caus), None, t)"
    and "sync_retry s env crus caus 1 index t = ((i', Some e), t')"
  shows "sync s env index t0 = Some (Some e, t')"
  using assms by (subst sync.simps) (simp add: cm_Tip_def)

lemma sync_step_ok:
  assumes "index \<noteq> cm_tip env t0"
    and "cm_UpdatesSince env index updatesBatchSize (t0 @ [(Tip, None)]) = ((crus, caus), None, t)"
    and "sync_retry s env crus caus 1 index t = ((i', None), t')"
  shows "sync s env index t0 = sync s env i' t'"
  using assms by (subst sync.simps) (simp add: cm_Tip_def)

lemmas eval_defs = attempt_failed_def processUpdates_def sub1_def env_failing_def seq_def wrap_def tx_op_def Let_def
  attempts_def trace_fetched_def zeroChainIndex_def

subsection \<open>The v2 resolution table\<close>

text \<open>
  C5: \<^verbatim>\<open>checkFileContract\<close> returns (false, false) for an absent resolution, (true, true)
  for a finalization, a renewal and a storage proof, and for an expiration (true, valid)
  where valid holds exactly when the file size of the element is zero.
\<close>

theorem checkFileContract_table:
  "checkFileContract fce None = (False, False)
   \<and> checkFileContract fce (Some V2FileContractFinalization) = (True, True)
   \<and> checkFileContract fce (Some V2FileContractRenewal) = (True, True)
   \<and> checkFileContract fce (Some V2StorageProof) = (True, True)
   \<and> checkFileContract fce (Some V2FileContractExpiration)
       = (True, V2_Filesize (v2fce_V2FileContract fce) = 0)"
  by (simp add: checkFileContract_def)

subsection \<open>The contract-state deriver\<close>

text \<open>
  C10: with both revisions nil, \<^verbatim>\<open>updateContract\<close> returns the developer error and
  makes no call, whether the contract is known or not: the check comes before the
  known-contract filter.
\<close>

theorem updateContract_both_nil:
  "updateContract s env index fcid None None resolved valid t
     = (Some (New ''both prev and curr revisions are nil''), t)"
  by (simp add: updateContract_def)

text \<open>
  C7: for a contract that is not in the known set, and at least one revision present,
  \<^verbatim>\<open>updateContract\<close> returns nil and leaves the trace as it was: no state read and no
  write is issued.
\<close>

theorem updateContract_unknown:
  "fcid \<notin> knownContracts s \<Longrightarrow> prev \<noteq> None \<or> cur \<noteq> None \<Longrightarrow>
   updateContract s env index fcid prev cur resolved valid t = (None, t)"
  by (auto simp: updateContract_def isKnownContract_def)

theorem updateContract_unknown_witness:
  "(2 :: FileContractID) \<notin> knownContracts sub1
   \<and> Some \<lparr>revisionNumber = 3, fileSize = 4\<rparr> \<noteq> (None :: revision option)
   \<and> updateContract sub1 (env_ok ContractStateActive 0) index5 2
        (Some \<lparr>revisionNumber = 3, fileSize = 4\<rparr>) None True True [] = (None, [])"
proof -
  have k: "(2 :: FileContractID) \<notin> knownContracts sub1"
    by (simp add: sub1_def)
  have p: "Some \<lparr>revisionNumber = 3, fileSize = 4\<rparr> \<noteq> None \<or> (None :: revision option) \<noteq> None"
    by simp
  show ?thesis
    using k updateContract_unknown [OF k p, of "env_ok ContractStateActive 0" index5 True True "[]"]
    by simp
qed





subsection \<open>Old blocks in the apply walker\<close>

text \<open>
  C1 says that for a block older than \<^verbatim>\<open>announcementMaxAge\<close> only the host
  announcements are skipped. The code leaves the iteration with \<^verbatim>\<open>continue\<close>, so the
  contract elements of the block are skipped too: for a block with timestamp 0 read at
  time \<open>10\<^sup>1\<^sup>3\<close> ns, with one hour of maximal age, the walker reads the clock and makes no
  other call, although contract 1 is known; the same block with a fresh timestamp has
  its element processed.
\<close>

theorem applyChainUpdates_old_block_skips_contracts:
  "applyChainUpdates sub1 (env_ok ContractStateActive 10000000000000) [cau1 0] []
     = (None, [(TimeNow, None)])
   \<and> applyChainUpdates sub1 (env_ok ContractStateActive 10000000000000)
       [cau1 9999999999999] []
     = (None, [(TimeNow, None), (ContractState 1, None), (UpdateContract 1 5 3 4, None)])"
  by (simp add: sub1_def env_ok_def cau1_def index5_def time_Since_def seq_def wrap_def
        apply_v1_def updateContract_def isKnownContract_def tx_ContractState_def
        updateContract_apply_def tx_op_def when'_def MaxRevisionNumber_def Let_def)

subsection \<open>One pass of \<^verbatim>\<open>processUpdates\<close>\<close>

text \<open>
  C2: when \<^verbatim>\<open>processUpdates\<close> returns nil, it has called \<^verbatim>\<open>UpdateChainIndex\<close> exactly
  once, with the index it returns, and that index is the one of the last apply update
  if there is one, else the one of the last revert update if there is one (and the zero
  index when both batches are empty).
\<close>

theorem processUpdates_index:
  assumes "processUpdates s env crus caus t = ((idx, None), t')"
  shows "filter is_UpdateChainIndex (map fst (drop (length t) t')) = [UpdateChainIndex idx]
     \<and> idx = (if caus \<noteq> [] then au_State_Index (last caus)
              else if crus \<noteq> [] then ru_State_Index (last crus)
              else zeroChainIndex)"
proof -
  from processUpdates_shape[OF assms] obtain pre where
    w: "\<forall>x\<in>set pre. walk_call (fst x)" and
    sh: "idx = (if caus \<noteq> [] then au_State_Index (last caus)
              else if crus \<noteq> [] then ru_State_Index (last crus)
              else zeroChainIndex)"
      "t' = t @ (BeginChainUpdateTx, None) # pre
              @ [(UpdateChainIndex idx, None), (UpdateFailedContracts (Height idx), None), (Commit, None)]"
    unfolding Let_def by auto
  from sh(2) filter_walk[OF w] have
    "filter is_UpdateChainIndex (map fst (drop (length t) t')) = [UpdateChainIndex idx]"
    by simp
  with sh(1) show ?thesis by simp
qed

theorem processUpdates_index_witness:
  "processUpdates sub1 (env_ok ContractStateActive 10000000000000) [] [cau1 9999999999999] []
     = ((index5, None),
        [(BeginChainUpdateTx, None), (TimeNow, None), (ContractState 1, None),
         (UpdateContract 1 5 3 4, None),
         (WalletApplyChainUpdates 7 [cau1 9999999999999], None),
         (UpdateChainIndex index5, None), (UpdateFailedContracts 5, None), (Commit, None)])
   \<and> filter is_UpdateChainIndex (map fst (drop (length ([] :: trace))
        [(BeginChainUpdateTx, None), (TimeNow, None), (ContractState 1, None),
         (UpdateContract 1 5 3 4, None),
         (WalletApplyChainUpdates 7 [cau1 9999999999999], None),
         (UpdateChainIndex index5, None), (UpdateFailedContracts 5, None), (Commit, None)]))
       = [UpdateChainIndex index5]
   \<and> index5 = au_State_Index (last [cau1 9999999999999])"
proof -
  let ?T = "[(BeginChainUpdateTx, None), (TimeNow, None), (ContractState 1, None),
         (UpdateContract 1 5 3 4, None),
         (WalletApplyChainUpdates 7 [cau1 9999999999999], None),
         (UpdateChainIndex index5, None), (UpdateFailedContracts 5, None), (Commit, None)]"
  have r: "processUpdates sub1 (env_ok ContractStateActive 10000000000000) [] [cau1 9999999999999] []
     = ((index5, None), ?T)"
    by (simp add: processUpdates_def sub1_def env_ok_def cau1_def index5_def time_Since_def
          seq_def wrap_def apply_v1_def updateContract_def isKnownContract_def
          tx_ContractState_def updateContract_apply_def tx_op_def when'_def
          MaxRevisionNumber_def Let_def)
  show ?thesis
    using r processUpdates_index [OF r] by simp
qed

text \<open>
  C8: if any call made in a pass other than \<^verbatim>\<open>Commit\<close> returned an error, then the
  pass has not called \<^verbatim>\<open>Commit\<close>, and it returns an error together with the zero index.
\<close>

theorem processUpdates_error_no_commit:
  assumes "processUpdates s env crus caus t = ((idx, err), t')"
    and "\<exists>x\<in>set (drop (length t) t'). fst x \<noteq> Commit \<and> snd x \<noteq> None"
  shows "Commit \<notin> fst ` set (drop (length t) t') \<and> err \<noteq> None \<and> idx = zeroChainIndex"
proof -
  from processUpdates_shape[OF assms(1)] obtain pre where
    w: "\<forall>x\<in>set pre. walk_call (fst x)" and
    sh: "(err \<noteq> None \<and> idx = zeroChainIndex \<and> t' = t @ (BeginChainUpdateTx, None) # pre)
      \<or> ((\<forall>x\<in>set pre. snd x = None) \<and>
          (\<exists>i. (err = None \<and>
                 t' = t @ (BeginChainUpdateTx, None) # pre
                        @ [(UpdateChainIndex i, None), (UpdateFailedContracts (Height i), None), (Commit, None)])
            \<or> (err \<noteq> None \<and> idx = zeroChainIndex \<and>
                (\<exists>e. t' = t @ (BeginChainUpdateTx, None) # pre @ [(UpdateChainIndex i, Some e)]
                   \<or> t' = t @ (BeginChainUpdateTx, None) # pre
                        @ [(UpdateChainIndex i, None), (UpdateFailedContracts (Height i), Some e)]
                   \<or> t' = t @ (BeginChainUpdateTx, None) # pre
                        @ [(UpdateChainIndex i, None), (UpdateFailedContracts (Height i), None),
                           (Commit, Some e)]))))"
    unfolding Let_def by blast
  have nc: "Commit \<notin> fst ` set pre" using w by (auto dest: walk_not_idx)
  from sh assms(2) nc show ?thesis
    by (elim disjE conjE exE) auto
qed

theorem processUpdates_error_no_commit_witness:
  "processUpdates sub1 (env_failing (\<lambda>t c. is_UpdateChainIndex c)) [] [] []
     = ((zeroChainIndex, Some (Errorf ''failed to update chain index: %w'' (New ''database is locked''))),
        [(BeginChainUpdateTx, None), (WalletApplyChainUpdates 7 [], None),
         (UpdateChainIndex zeroChainIndex, Some (New ''database is locked''))])
   \<and> (\<exists>x\<in>set (drop (length ([] :: trace))
        [(BeginChainUpdateTx, None), (WalletApplyChainUpdates 7 [], None),
         (UpdateChainIndex zeroChainIndex, Some (New ''database is locked''))]).
         fst x \<noteq> Commit \<and> snd x \<noteq> None)
   \<and> Commit \<notin> fst ` set (drop (length ([] :: trace))
        [(BeginChainUpdateTx, None), (WalletApplyChainUpdates 7 [], None),
         (UpdateChainIndex zeroChainIndex, Some (New ''database is locked''))])"
proof -
  let ?T = "[(BeginChainUpdateTx, None), (WalletApplyChainUpdates 7 [], None),
         (UpdateChainIndex zeroChainIndex, Some (New ''database is locked''))]"
  have r: "processUpdates sub1 (env_failing (\<lambda>t c. is_UpdateChainIndex c)) [] [] []
     = ((zeroChainIndex, Some (Errorf ''failed to update chain index: %w'' (New ''database is locked''))), ?T)"
    by (simp add: processUpdates_def sub1_def env_failing_def seq_def wrap_def tx_op_def Let_def)
  have f: "\<exists>x\<in>set (drop (length ([] :: trace)) ?T). fst x \<noteq> Commit \<and> snd x \<noteq> None"
    by simp
  show ?thesis
    using r f processUpdates_error_no_commit [OF r f] by simp
qed



subsection \<open>The retry loop of \<^verbatim>\<open>sync\<close>\<close>

text \<open>
  C6: for a batch fetched in \<^verbatim>\<open>sync\<close>, with \<open>n\<close> retry intervals: the retry loop,
  entered at trace \<open>t\<close>, begins at most \<open>n + 1\<close> transactions. If the first \<open>k\<close> attempts
  fail and attempt \<open>k + 1\<close> succeeds (\<open>k \<le> n\<close>), the loop ends with the result of that
  attempt, exactly \<open>k + 1\<close> attempts were made, the sleeps were the first \<open>k\<close> intervals
  in order, each after the attempt that failed, and \<^verbatim>\<open>sync\<close> goes on with the index
  returned. If all \<open>n + 1\<close> attempts fail, exactly \<open>n + 1\<close> were made, every interval
  was slept once, in order, and \<^verbatim>\<open>sync\<close> returns the error of the last attempt, wrapped
  with the number of attempts.
\<close>

theorem sync_retry_attempts:
  "attempts (drop (length t) (snd (sync_retry s env crus caus 1 index t)))
     \<le> length (retryTxIntervals s) + 1
   \<and> (\<forall>k \<le> length (retryTxIntervals s).
        (\<forall>j<k. attempt_failed s env crus caus t j) \<and> \<not> attempt_failed s env crus caus t k \<longrightarrow>
          sync_retry s env crus caus 1 index t
            = processUpdates s env crus caus (attempt_start s env crus caus 0 t k)
          \<and> snd (fst (sync_retry s env crus caus 1 index t)) = None
          \<and> attempts (drop (length t) (snd (sync_retry s env crus caus 1 index t))) = k + 1
          \<and> sleeps (drop (length t) (snd (sync_retry s env crus caus 1 index t)))
              = take k (retryTxIntervals s)
          \<and> (\<forall>t0. index \<noteq> cm_tip env t0
                \<and> cm_UpdatesSince env index updatesBatchSize (t0 @ [(Tip, None)])
                    = ((crus, caus), None, t) \<longrightarrow>
                sync s env index t0
                  = sync s env (fst (fst (sync_retry s env crus caus 1 index t)))
                      (snd (sync_retry s env crus caus 1 index t))))
   \<and> ((\<forall>j \<le> length (retryTxIntervals s). attempt_failed s env crus caus t j) \<longrightarrow>
          snd (fst (sync_retry s env crus caus 1 index t))
            = Some (ErrorfInt ''failed to process updates after %d attempts: %w''
                      (int (length (retryTxIntervals s)) + 1)
                      (the (snd (fst (processUpdates s env crus caus
                         (attempt_start s env crus caus 0 t (length (retryTxIntervals s))))))))
          \<and> attempts (drop (length t) (snd (sync_retry s env crus caus 1 index t)))
              = length (retryTxIntervals s) + 1
          \<and> sleeps (drop (length t) (snd (sync_retry s env crus caus 1 index t)))
              = retryTxIntervals s
          \<and> (\<forall>t0. index \<noteq> cm_tip env t0
                \<and> cm_UpdatesSince env index updatesBatchSize (t0 @ [(Tip, None)])
                    = ((crus, caus), None, t) \<longrightarrow>
                sync s env index t0
                  = Some (snd (fst (sync_retry s env crus caus 1 index t)),
                          snd (sync_retry s env crus caus 1 index t))))"
proof -
  let ?n = "length (retryTxIntervals s)"
  let ?r = "sync_retry s env crus caus 1 index t"
  let ?new = "drop (length t) (snd ?r)"
  have ok: "?r = processUpdates s env crus caus (attempt_start s env crus caus 0 t k)
          \<and> snd (fst ?r) = None \<and> attempts ?new = k + 1 \<and> sleeps ?new = take k (retryTxIntervals s)
          \<and> (\<forall>t0. index \<noteq> cm_tip env t0
                \<and> cm_UpdatesSince env index updatesBatchSize (t0 @ [(Tip, None)])
                    = ((crus, caus), None, t) \<longrightarrow>
                sync s env index t0 = sync s env (fst (fst ?r)) (snd ?r))"
    if k: "k \<le> ?n" and f: "\<forall>j<k. attempt_failed s env crus caus t j"
      and nf: "\<not> attempt_failed s env crus caus t k" for k
  proof -
    have eq: "?r = processUpdates s env crus caus (attempt_start s env crus caus 0 t k)"
      by (rule sync_retry_success[OF k f nf])
    from nf have none: "snd (fst ?r) = None" unfolding eq by (simp add: attempt_failed_def)
    from attempt_result_shape[OF k, of env crus caus t] obtain new where
      new: "snd ?r = t @ new" "attempts new = Suc k" "sleeps new = take k (retryTxIntervals s)"
      unfolding eq by blast
    have sy: "sync s env index t0 = sync s env (fst (fst ?r)) (snd ?r)"
      if "index \<noteq> cm_tip env t0"
        and "cm_UpdatesSince env index updatesBatchSize (t0 @ [(Tip, None)]) = ((crus, caus), None, t)"
      for t0
    proof -
      have "?r = ((fst (fst ?r), None), snd ?r)" using none by (metis prod.collapse)
      from sync_step_ok[OF that this] show ?thesis .
    qed
    from eq none new sy show ?thesis by simp
  qed
  have ex: "snd (fst ?r)
            = Some (ErrorfInt ''failed to process updates after %d attempts: %w''
                      (int ?n + 1)
                      (the (snd (fst (processUpdates s env crus caus
                         (attempt_start s env crus caus 0 t ?n))))))
          \<and> attempts ?new = ?n + 1 \<and> sleeps ?new = retryTxIntervals s
          \<and> (\<forall>t0. index \<noteq> cm_tip env t0
                \<and> cm_UpdatesSince env index updatesBatchSize (t0 @ [(Tip, None)])
                    = ((crus, caus), None, t) \<longrightarrow>
                sync s env index t0 = Some (snd (fst ?r), snd ?r))"
    if f: "\<forall>j \<le> ?n. attempt_failed s env crus caus t j"
  proof -
    note eq = sync_retry_exhausted[OF f, of index]
    have e: "snd (fst ?r)
            = Some (ErrorfInt ''failed to process updates after %d attempts: %w''
                      (int ?n + 1)
                      (the (snd (fst (processUpdates s env crus caus
                         (attempt_start s env crus caus 0 t ?n))))))"
      unfolding eq by simp
    have sn: "snd ?r = snd (processUpdates s env crus caus (attempt_start s env crus caus 0 t ?n))"
      unfolding eq by simp
    from attempt_result_shape[of ?n s env crus caus t] obtain new where
      new: "snd ?r = t @ new" "attempts new = Suc ?n" "sleeps new = take ?n (retryTxIntervals s)"
      unfolding sn by auto
    have sy: "sync s env index t0 = Some (snd (fst ?r), snd ?r)"
      if "index \<noteq> cm_tip env t0"
        and "cm_UpdatesSince env index updatesBatchSize (t0 @ [(Tip, None)]) = ((crus, caus), None, t)"
      for t0
    proof -
      obtain e' where e': "snd (fst ?r) = Some e'" using e by blast
      then have "?r = ((fst (fst ?r), Some e'), snd ?r)" by (metis prod.collapse)
      from sync_step_fail[OF that this] e' show ?thesis by simp
    qed
    from e new sy show ?thesis by simp
  qed
  have bound: "attempts ?new \<le> ?n + 1"
  proof (cases "\<forall>j \<le> ?n. attempt_failed s env crus caus t j")
    case True
    from ex[OF True] show ?thesis by simp
  next
    case False
    then have "\<exists>k. k \<le> ?n \<and> \<not> attempt_failed s env crus caus t k" by blast
    then obtain k where k: "k \<le> ?n \<and> \<not> attempt_failed s env crus caus t k"
        and least: "\<forall>j<k. \<not> (j \<le> ?n \<and> \<not> attempt_failed s env crus caus t j)"
      using exists_least_iff[of "\<lambda>k. k \<le> ?n \<and> \<not> attempt_failed s env crus caus t k"] by blast
    from k least have "\<forall>j<k. attempt_failed s env crus caus t j" by auto
    with ok[of k] k have "attempts ?new = k + 1" by blast
    with k show ?thesis by simp
  qed
  from bound ok ex show ?thesis by blast
qed

theorem sync_retry_attempts_witness:
  "attempt_failed sub1 env_commit_fails_once [] [] trace_fetched 0
   \<and> \<not> attempt_failed sub1 env_commit_fails_once [] [] trace_fetched 1
   \<and> snd (fst (sync_retry sub1 env_commit_fails_once [] [] 1 index5 trace_fetched)) = None
   \<and> attempts (drop (length trace_fetched)
        (snd (sync_retry sub1 env_commit_fails_once [] [] 1 index5 trace_fetched))) = 2
   \<and> sleeps (drop (length trace_fetched)
        (snd (sync_retry sub1 env_commit_fails_once [] [] 1 index5 trace_fetched))) = [1000]
   \<and> attempt_failed sub1 env_commit_fails [] [] trace_fetched 0
   \<and> attempt_failed sub1 env_commit_fails [] [] trace_fetched 1
   \<and> attempt_failed sub1 env_commit_fails [] [] trace_fetched 2
   \<and> index5 \<noteq> cm_tip env_commit_fails []
   \<and> cm_UpdatesSince env_commit_fails index5 updatesBatchSize [(Tip, None)]
        = (([], []), None, trace_fetched)
   \<and> attempts (drop (length trace_fetched)
        (snd (sync_retry sub1 env_commit_fails [] [] 1 index5 trace_fetched))) = 3
   \<and> sleeps (drop (length trace_fetched)
        (snd (sync_retry sub1 env_commit_fails [] [] 1 index5 trace_fetched))) = [1000, 2000]
   \<and> sync sub1 env_commit_fails index5 []
        = Some (Some (ErrorfInt ''failed to process updates after %d attempts: %w'' 3
                        (Errorf ''failed to commit chain update: %w''
                           (New ''database is locked''))),
                snd (sync_retry sub1 env_commit_fails [] [] 1 index5 trace_fetched))"
proof -
  have n: "length (retryTxIntervals sub1) = 2" by (simp add: sub1_def)
  have a0: "attempt_failed sub1 env_commit_fails_once [] [] trace_fetched 0"
    by (simp add: eval_defs env_commit_fails_once_def)
  have a1: "\<not> attempt_failed sub1 env_commit_fails_once [] [] trace_fetched 1"
    by (simp add: eval_defs env_commit_fails_once_def)
  have b0: "attempt_failed sub1 env_commit_fails [] [] trace_fetched 0"
    by (simp add: eval_defs env_commit_fails_def)
  have b1: "attempt_failed sub1 env_commit_fails [] [] trace_fetched 1"
    by (simp add: eval_defs env_commit_fails_def)
  have b2: "attempt_failed sub1 env_commit_fails [] [] trace_fetched 2"
    by (simp add: eval_defs env_commit_fails_def numeral_2_eq_2)
  have berr: "the (snd (fst (processUpdates sub1 env_commit_fails [] []
                 (attempt_start sub1 env_commit_fails [] [] 0 trace_fetched 2))))
      = Errorf ''failed to commit chain update: %w'' (New ''database is locked'')"
    by (simp add: eval_defs env_commit_fails_def numeral_2_eq_2)
  have tip: "index5 \<noteq> cm_tip env_commit_fails []"
    by (simp add: env_commit_fails_def env_failing_def index5_def zeroChainIndex_def)
  have upd: "cm_UpdatesSince env_commit_fails index5 updatesBatchSize [(Tip, None)]
        = (([], []), None, trace_fetched)"
    by (simp add: cm_UpdatesSince_def env_commit_fails_def env_failing_def trace_fetched_def)
  have ball: "\<forall>j \<le> length (retryTxIntervals sub1). attempt_failed sub1 env_commit_fails [] [] trace_fetched j"
  proof (intro allI impI)
    fix j :: nat assume "j \<le> length (retryTxIntervals sub1)"
    then have "j = 0 \<or> j = 1 \<or> j = 2" unfolding n by arith
    with b0 b1 b2 show "attempt_failed sub1 env_commit_fails [] [] trace_fetched j" by auto
  qed
  have aprev: "\<forall>j<1. attempt_failed sub1 env_commit_fails_once [] [] trace_fetched j"
    using a0 by simp
  have k: "(1::nat) \<le> length (retryTxIntervals sub1)" unfolding n by simp
  note A = sync_retry_attempts [where s = sub1 and env = env_commit_fails_once and crus = "[]"
      and caus = "[]" and index = index5 and t = trace_fetched,
      THEN conjunct2, THEN conjunct1, THEN spec [where x = "1::nat"], THEN mp, OF k,
      THEN mp, OF conjI [OF aprev a1]]
  note B = sync_retry_attempts [where s = sub1 and env = env_commit_fails and crus = "[]"
      and caus = "[]" and index = index5 and t = trace_fetched,
      THEN conjunct2, THEN conjunct2, THEN mp, OF ball]
  have B4: "sync sub1 env_commit_fails index5 []
      = Some (snd (fst (sync_retry sub1 env_commit_fails [] [] 1 index5 trace_fetched)),
              snd (sync_retry sub1 env_commit_fails [] [] 1 index5 trace_fetched))"
    using B tip upd by (metis append_Nil)
  note A2 = A [THEN conjunct2, THEN conjunct1]
  have A3: "attempts (drop (length trace_fetched)
        (snd (sync_retry sub1 env_commit_fails_once [] [] 1 index5 trace_fetched))) = 2"
    using A [THEN conjunct2, THEN conjunct2, THEN conjunct1] by simp
  have A4: "sleeps (drop (length trace_fetched)
        (snd (sync_retry sub1 env_commit_fails_once [] [] 1 index5 trace_fetched))) = [1000]"
    using A [THEN conjunct2, THEN conjunct2, THEN conjunct2, THEN conjunct1]
    by (simp add: sub1_def)
  have B1: "snd (fst (sync_retry sub1 env_commit_fails [] [] 1 index5 trace_fetched))
        = Some (ErrorfInt ''failed to process updates after %d attempts: %w'' 3
                        (Errorf ''failed to commit chain update: %w''
                           (New ''database is locked'')))"
    using B [THEN conjunct1] unfolding n berr by simp
  have B2: "attempts (drop (length trace_fetched)
        (snd (sync_retry sub1 env_commit_fails [] [] 1 index5 trace_fetched))) = 3"
    using B [THEN conjunct2, THEN conjunct1] unfolding n by simp
  have B3: "sleeps (drop (length trace_fetched)
        (snd (sync_retry sub1 env_commit_fails [] [] 1 index5 trace_fetched))) = [1000, 2000]"
    using B [THEN conjunct2, THEN conjunct2, THEN conjunct1] by (simp add: sub1_def)
  have B5: "sync sub1 env_commit_fails index5 []
        = Some (Some (ErrorfInt ''failed to process updates after %d attempts: %w'' 3
                        (Errorf ''failed to commit chain update: %w''
                           (New ''database is locked''))),
                snd (sync_retry sub1 env_commit_fails [] [] 1 index5 trace_fetched))"
    using B4 unfolding B1 .
  show ?thesis
    by (intro conjI a0 a1 A2 A3 A4 b0 b1 b2 tip upd B2 B3 B5)
qed

end
